theory Spec2Isabelle
  imports Complex_Main "HOL-Library.Word" "HOL-Library.AList" "HOL-Library.Multiset"
begin

section \<open>Values\<close>

text \<open>
  The store API keeps product documents in one MongoDB collection and exposes list, get,
  create, update and delete over HTTP. The model follows the single source file
  \<^verbatim>\<open>STORE_API_CADUDISNER.py\<close>: the pydantic schemas, the five functions of
  \<^verbatim>\<open>app/crud.py\<close> and the five route handlers of \<^verbatim>\<open>app/routers/products.py\<close>.
  The awaits of the source are sequential calls on one collection, so every operation is a
  function from the collection to a result and the collection afterwards; an exception is
  a result \<open>Inl e\<close>, with the collection as it was when the exception was raised.

  Three things come from the libraries and not from the source file. The driver generates
  the \<^verbatim>\<open>_id\<close> of an inserted document: it is an argument of the operations that
  insert. pydantic converts a present, non-null value to the type of its field: the three
  conversions are a parameter of the schemas. The framework serialises what a handler
  returns: the model ends with the value the handler returns.
\<close>

text \<open>
  A Python float. The program never computes with a price: it compares it with \<open>0\<close> and
  copies it, so a float is modelled by the number it denotes, with the two infinities and
  NaN apart.
\<close>

datatype pyfloat = Finite rat | PosInf | NegInf | NaN

text \<open>\<^verbatim>\<open>v > 0\<close> on floats: false for NaN.\<close>

fun gt0 :: "pyfloat \<Rightarrow> bool" where
  "gt0 (Finite r) = (0 < r)"
| "gt0 PosInf = True"
| "gt0 NegInf = False"
| "gt0 NaN = False"

text \<open>\<^verbatim>\<open>v <= 0\<close> on floats: false for NaN as well.\<close>

fun le0 :: "pyfloat \<Rightarrow> bool" where
  "le0 (Finite r) = (r \<le> 0)"
| "le0 PosInf = False"
| "le0 NegInf = True"
| "le0 NaN = False"

type_synonym byte = "8 word"

text \<open>An ObjectId is its binary value: the bytes held in \<^verbatim>\<open>ObjectId.__id\<close>.\<close>

type_synonym oid = "byte list"

datatype error =
    InvalidId string
  | KeyError string
  | TypeError
  | DuplicateKeyError
  | HTTPException nat
  | RequestValidationError "(string \<times> string) list"

text \<open>The values a stored field or a dictionary entry of the program holds.\<close>

datatype bson = BNull | BStr string | BFloat pyfloat | BBool bool

type_synonym pydict = "(string \<times> bson) list"

text \<open>
  A document of the collection: its \<^verbatim>\<open>_id\<close> and its other fields in order. The
  collection is written only by \<^verbatim>\<open>insert_one\<close> on dictionaries without an \<^verbatim>\<open>_id\<close> key
  (\<^verbatim>\<open>add_product\<close> receives \<^verbatim>\<open>product.dict()\<close>, whose keys are the four declared
  fields), so the driver assigns every \<^verbatim>\<open>_id\<close> and it is an ObjectId.
\<close>

record document =
  doc_id :: oid
  doc_fields :: pydict

type_synonym collection = "document list"

section \<open>ObjectId: parsing and printing\<close>

text \<open>
  \<^verbatim>\<open>ObjectId(id)\<close> on a string (bson): the string must have 24 characters and
  \<^verbatim>\<open>bytes.fromhex\<close> must accept it, otherwise \<^verbatim>\<open>InvalidId\<close> is raised.
  \<^verbatim>\<open>bytes.fromhex\<close> reads pairs of hexadecimal digits and skips ASCII whitespace
  between pairs.
\<close>

definition hexval :: "char \<Rightarrow> nat option" where
  "hexval c =
     (let n = (of_char c :: nat) in
      if 48 \<le> n \<and> n \<le> 57 then Some (n - 48)
      else if 97 \<le> n \<and> n \<le> 102 then Some (n - 87)
      else if 65 \<le> n \<and> n \<le> 70 then Some (n - 55)
      else None)"

definition isspace :: "char \<Rightarrow> bool" where
  "isspace c = (let n = (of_char c :: nat) in n = 32 \<or> (9 \<le> n \<and> n \<le> 13))"

fun fromhex :: "string \<Rightarrow> byte list option" where
  "fromhex [] = Some []"
| "fromhex [c] = (if isspace c then Some [] else None)"
| "fromhex (c # d # cs) =
     (if isspace c then fromhex (d # cs)
      else case (hexval c, hexval d) of
             (Some hi, Some lo) \<Rightarrow>
               (case fromhex cs of
                  None \<Rightarrow> None
                | Some bs \<Rightarrow> Some (of_nat (16 * hi + lo) # bs))
           | _ \<Rightarrow> None)"

definition ObjectId :: "string \<Rightarrow> error + oid" where
  "ObjectId s =
     (if length s = 24
      then (case fromhex s of None \<Rightarrow> Inl (InvalidId s) | Some bs \<Rightarrow> Inr bs)
      else Inl (InvalidId s))"

text \<open>\<^verbatim>\<open>str(oid)\<close>: two lower-case hexadecimal digits for each byte.\<close>

definition hexdigit :: "nat \<Rightarrow> char" where
  "hexdigit n = ''0123456789abcdef'' ! n"

definition hex_of_byte :: "byte \<Rightarrow> string" where
  "hex_of_byte b = [hexdigit (unat b div 16), hexdigit (unat b mod 16)]"

definition ObjectId_str :: "oid \<Rightarrow> string" where
  "ObjectId_str bs = concat (map hex_of_byte bs)"








section \<open>The collection: the driver's operations\<close>

text \<open>\<^verbatim>\<open>find_one({"_id": oid})\<close>: the first document with that \<^verbatim>\<open>_id\<close>, or None.\<close>

definition find_one :: "oid \<Rightarrow> collection \<Rightarrow> document option" where
  "find_one i c = List.find (\<lambda>d. doc_id d = i) c"

text \<open>
  \<^verbatim>\<open>insert_one(document)\<close>: the dictionary has no \<^verbatim>\<open>_id\<close>, so the driver gives it a
  newly generated ObjectId, here the argument \<open>new_id\<close> (a value of
  \<open>ObjectId_generate\<close>); the server refuses an \<^verbatim>\<open>_id\<close> that the collection already
  holds. The result is \<^verbatim>\<open>inserted_id\<close>.
\<close>

definition insert_one :: "oid \<Rightarrow> pydict \<Rightarrow> collection \<Rightarrow> error + (oid \<times> collection)" where
  "insert_one new_id data c =
     (if new_id \<in> doc_id ` set c then Inl DuplicateKeyError
      else Inr (new_id, c @ [\<lparr>doc_id = new_id, doc_fields = data\<rparr>]))"

text \<open>\<^verbatim>\<open>{"$set": data}\<close>: every key of \<open>data\<close> is written, the other fields stay.\<close>

definition set_fields :: "pydict \<Rightarrow> pydict \<Rightarrow> pydict" where
  "set_fields data fs = fold (\<lambda>(k, v). AList.update k v) data fs"

record UpdateResult =
  matched_count :: nat
  modified_count :: nat

text \<open>An \<^verbatim>\<open>UpdateResult\<close> object defines no truth value of its own, so it is true.\<close>

definition truthy :: "UpdateResult \<Rightarrow> bool" where
  "truthy r = True"

fun update_first :: "oid \<Rightarrow> (document \<Rightarrow> document) \<Rightarrow> collection \<Rightarrow> collection" where
  "update_first i f [] = []"
| "update_first i f (d # ds) = (if doc_id d = i then f d # ds else d # update_first i f ds)"

definition update_one :: "oid \<Rightarrow> pydict \<Rightarrow> collection \<Rightarrow> UpdateResult \<times> collection" where
  "update_one i data c =
     (case find_one i c of
        None \<Rightarrow> (\<lparr>matched_count = 0, modified_count = 0\<rparr>, c)
      | Some d \<Rightarrow>
          (\<lparr>matched_count = 1,
            modified_count = (if set_fields data (doc_fields d) = doc_fields d then 0 else 1)\<rparr>,
           update_first i (\<lambda>d. d\<lparr>doc_fields := set_fields data (doc_fields d)\<rparr>) c))"

fun delete_one :: "oid \<Rightarrow> collection \<Rightarrow> collection" where
  "delete_one i [] = []"
| "delete_one i (d # ds) = (if doc_id d = i then ds else d # delete_one i ds)"

text \<open>\<^verbatim>\<open>product["k"]\<close> raises KeyError on a missing key; \<^verbatim>\<open>product.get("k")\<close> gives None.\<close>

definition getitem :: "pydict \<Rightarrow> string \<Rightarrow> error + bson" where
  "getitem d k = (case map_of d k of None \<Rightarrow> Inl (KeyError k) | Some v \<Rightarrow> Inr v)"

definition get_or_none :: "pydict \<Rightarrow> string \<Rightarrow> bson" where
  "get_or_none d k = (case map_of d k of None \<Rightarrow> BNull | Some v \<Rightarrow> v)"

text \<open>
  \<^verbatim>\<open>find().sort("name", 1)\<close>: all documents, ascending in the server's order of values
  on the field \<^verbatim>\<open>name\<close>. A missing field sorts as null; values of different types
  are ordered by type (null, numbers, text, booleans); numbers by value with NaN first;
  text by its bytes; false before true. The server promises no order between documents
  with equal names: the model keeps them in collection order.
\<close>

fun float_key :: "pyfloat \<Rightarrow> nat \<times> rat" where
  "float_key NaN = (0, 0)"
| "float_key NegInf = (1, 0)"
| "float_key (Finite r) = (2, r)"
| "float_key PosInf = (3, 0)"

definition float_le :: "pyfloat \<Rightarrow> pyfloat \<Rightarrow> bool" where
  "float_le a b =
     (fst (float_key a) < fst (float_key b) \<or>
      (fst (float_key a) = fst (float_key b) \<and> snd (float_key a) \<le> snd (float_key b)))"

fun str_le :: "string \<Rightarrow> string \<Rightarrow> bool" where
  "str_le [] ys = True"
| "str_le (x # xs) [] = False"
| "str_le (x # xs) (y # ys) =
     (if x = y then str_le xs ys else (of_char x :: nat) < of_char y)"

fun type_rank :: "bson \<Rightarrow> nat" where
  "type_rank BNull = 0"
| "type_rank (BFloat f) = 1"
| "type_rank (BStr s) = 2"
| "type_rank (BBool b) = 3"

fun same_type_le :: "bson \<Rightarrow> bson \<Rightarrow> bool" where
  "same_type_le (BFloat x) (BFloat y) = float_le x y"
| "same_type_le (BStr x) (BStr y) = str_le x y"
| "same_type_le (BBool x) (BBool y) = (x \<le> y)"
| "same_type_le a b = True"

definition bson_le :: "bson \<Rightarrow> bson \<Rightarrow> bool" where
  "bson_le a b =
     (type_rank a < type_rank b \<or> (type_rank a = type_rank b \<and> same_type_le a b))"

definition name_le :: "pydict \<Rightarrow> pydict \<Rightarrow> bool" where
  "name_le a b = bson_le (get_or_none a ''name'') (get_or_none b ''name'')"

fun insort_by :: "('a \<Rightarrow> 'a \<Rightarrow> bool) \<Rightarrow> 'a \<Rightarrow> 'a list \<Rightarrow> 'a list" where
  "insort_by le x [] = [x]"
| "insort_by le x (y # ys) = (if le x y then x # y # ys else y # insort_by le x ys)"

definition sort_by :: "('a \<Rightarrow> 'a \<Rightarrow> bool) \<Rightarrow> 'a list \<Rightarrow> 'a list" where
  "sort_by le xs = foldr (insort_by le) xs []"

definition find_sort_name :: "collection \<Rightarrow> document list" where
  "find_sort_name c = sort_by (\<lambda>a b. name_le (doc_fields a) (doc_fields b)) c"

section \<open>Repository operations\<close>

definition product_helper :: "document \<Rightarrow> error + pydict" where
  "product_helper product =
     (case getitem (doc_fields product) ''name'' of
        Inl e \<Rightarrow> Inl e
      | Inr n \<Rightarrow>
     (case getitem (doc_fields product) ''price'' of
        Inl e \<Rightarrow> Inl e
      | Inr p \<Rightarrow>
     (case getitem (doc_fields product) ''in_stock'' of
        Inl e \<Rightarrow> Inl e
      | Inr s \<Rightarrow>
          Inr [(''id'', BStr (ObjectId_str (doc_id product))),
               (''name'', n),
               (''description'', get_or_none (doc_fields product) ''description''),
               (''price'', p),
               (''in_stock'', s)])))"

text \<open>The loop of \<^verbatim>\<open>retrieve_products\<close>: each document is mapped and appended.\<close>

fun append_products :: "pydict list \<Rightarrow> document list \<Rightarrow> error + pydict list" where
  "append_products products [] = Inr products"
| "append_products products (product # rest) =
     (case product_helper product of
        Inl e \<Rightarrow> Inl e
      | Inr r \<Rightarrow> append_products (products @ [r]) rest)"

definition retrieve_products :: "collection \<Rightarrow> (error + pydict list) \<times> collection" where
  "retrieve_products c = (append_products [] (find_sort_name c), c)"

definition retrieve_product :: "string \<Rightarrow> collection \<Rightarrow> (error + pydict option) \<times> collection" where
  "retrieve_product id' c =
     (case ObjectId id' of
        Inl e \<Rightarrow> (Inl e, c)
      | Inr i \<Rightarrow>
          (case find_one i c of
             Some product \<Rightarrow>
               (case product_helper product of
                  Inl e \<Rightarrow> (Inl e, c)
                | Inr r \<Rightarrow> (Inr (Some r), c))
           | None \<Rightarrow> (Inr None, c)))"

definition add_product :: "oid \<Rightarrow> pydict \<Rightarrow> collection \<Rightarrow> (error + pydict) \<times> collection" where
  "add_product new_id product_data c =
     (case insert_one new_id product_data c of
        Inl e \<Rightarrow> (Inl e, c)
      | Inr (inserted_id, c') \<Rightarrow>
          (case find_one inserted_id c' of
             None \<Rightarrow> (Inl TypeError, c')
           | Some created \<Rightarrow>
               (case product_helper created of
                  Inl e \<Rightarrow> (Inl e, c')
                | Inr r \<Rightarrow> (Inr r, c'))))"

text \<open>
  \<^verbatim>\<open>update_product\<close> tests the length of the dictionary before it parses the id; the
  id is parsed again for \<^verbatim>\<open>update_one\<close>, with the same result.
\<close>

definition update_product :: "string \<Rightarrow> pydict \<Rightarrow> collection \<Rightarrow> (error + bool) \<times> collection" where
  "update_product id' data c =
     (if length data < 1 then (Inr False, c)
      else case ObjectId id' of
        Inl e \<Rightarrow> (Inl e, c)
      | Inr i \<Rightarrow>
          (case find_one i c of
             Some product \<Rightarrow>
               (case update_one i data c of
                  (updated, c') \<Rightarrow>
                    if truthy updated then (Inr True, c') else (Inr False, c'))
           | None \<Rightarrow> (Inr False, c)))"

definition delete_product :: "string \<Rightarrow> collection \<Rightarrow> (error + bool) \<times> collection" where
  "delete_product id' c =
     (case ObjectId id' of
        Inl e \<Rightarrow> (Inl e, c)
      | Inr i \<Rightarrow>
          (case find_one i c of
             Some product \<Rightarrow> (Inr True, delete_one i c)
           | None \<Rightarrow> (Inr False, c)))"

section \<open>Validation schemas\<close>

text \<open>A decoded JSON value, and a request body: a JSON object, read by key.\<close>

datatype json =
    JNull
  | JBool bool
  | JInt int
  | JFloat pyfloat
  | JStr string
  | JArr "json list"
  | JObj "(string \<times> json) list"

type_synonym body = "string \<rightharpoonup> json"

text \<open>
  The schemas are pydantic models in the style of version 1 (\<^verbatim>\<open>orm_mode\<close>,
  \<^verbatim>\<open>.dict()\<close>, an \<^verbatim>\<open>Optional\<close> annotation without a default being optional).
  What pydantic does with a value that is present and not null is the work of its
  validator for the field's type, which converts the value or refuses it. The three
  validators the schemas use are parameters of the model; everything the declarations of
  the source say (required, optional, default, \<^verbatim>\<open>gt=0\<close>) is written out below.
\<close>

record validators =
  str_validator :: "json \<Rightarrow> string option"
  float_validator :: "json \<Rightarrow> pyfloat option"
  bool_validator :: "json \<Rightarrow> bool option"

text \<open>
  An instance of the validators, for examples: text for \<^verbatim>\<open>str\<close>; a number or a
  boolean for \<^verbatim>\<open>float\<close>; a boolean, \<open>0\<close> or \<open>1\<close> for \<^verbatim>\<open>bool\<close>. It is narrower than
  pydantic's own converters, which also turn a number into text, numeric text into a
  float and words such as \<^verbatim>\<open>"yes"\<close> into a boolean; it is applied below only to text, a
  float, a boolean and null, where both agree. The general theorems hold for every
  instance.
\<close>

definition scalar_validators :: validators where
  "scalar_validators =
     \<lparr>str_validator = (\<lambda>j. case j of JStr s \<Rightarrow> Some s | _ \<Rightarrow> None),
      float_validator =
        (\<lambda>j. case j of
               JFloat f \<Rightarrow> Some f
             | JInt i \<Rightarrow> Some (Finite (of_int i))
             | JBool b \<Rightarrow> Some (Finite (if b then 1 else 0))
             | _ \<Rightarrow> None),
      bool_validator =
        (\<lambda>j. case j of
               JBool b \<Rightarrow> Some b
             | JInt i \<Rightarrow> (if i = 1 then Some True else if i = 0 then Some False else None)
             | JFloat f \<Rightarrow>
                 (if f = Finite 1 then Some True else if f = Finite 0 then Some False else None)
             | _ \<Rightarrow> None)\<rparr>"

text \<open>
  A required field, \<^verbatim>\<open>Field(...)\<close>: a missing key and null are errors. The first
  argument is the validator, the second the error it stands for.
\<close>

definition required :: "(json \<Rightarrow> 'a option) \<Rightarrow> string \<Rightarrow> json option \<Rightarrow> string + 'a" where
  "required validator err v =
     (case v of
        None \<Rightarrow> Inl ''value_error.missing''
      | Some JNull \<Rightarrow> Inl ''type_error.none.not_allowed''
      | Some j \<Rightarrow> (case validator j of None \<Rightarrow> Inl err | Some a \<Rightarrow> Inr a))"

text \<open>An \<^verbatim>\<open>Optional[...]\<close> field with default None: a missing key and null both give None.\<close>

definition optional :: "(json \<Rightarrow> 'a option) \<Rightarrow> string \<Rightarrow> json option \<Rightarrow> string + 'a option" where
  "optional validator err v =
     (case v of
        None \<Rightarrow> Inr None
      | Some JNull \<Rightarrow> Inr None
      | Some j \<Rightarrow> (case validator j of None \<Rightarrow> Inl err | Some a \<Rightarrow> Inr (Some a)))"

text \<open>A field with a default that is not None: a missing key gives the default, null is an error.\<close>

definition with_default :: "'a \<Rightarrow> (json \<Rightarrow> 'a option) \<Rightarrow> string \<Rightarrow> json option \<Rightarrow> string + 'a" where
  "with_default dflt validator err v =
     (case v of
        None \<Rightarrow> Inr dflt
      | Some JNull \<Rightarrow> Inl ''type_error.none.not_allowed''
      | Some j \<Rightarrow> (case validator j of None \<Rightarrow> Inl err | Some a \<Rightarrow> Inr a))"

text \<open>\<^verbatim>\<open>gt=0\<close>: after the conversion to float, \<^verbatim>\<open>not v > 0\<close> is an error.\<close>

definition gt_0 :: "string + pyfloat \<Rightarrow> string + pyfloat" where
  "gt_0 r =
     (case r of
        Inl e \<Rightarrow> Inl e
      | Inr v \<Rightarrow> if \<not> gt0 v then Inl ''value_error.number.not_gt'' else Inr v)"

definition field_errors :: "string \<Rightarrow> string + 'a \<Rightarrow> (string \<times> string) list" where
  "field_errors k r = (case r of Inl e \<Rightarrow> [(k, e)] | Inr _ \<Rightarrow> [])"

record ProductSchema =
  name :: string
  description :: "string option"
  price :: pyfloat
  in_stock :: bool

definition ProductSchema_validate :: "validators \<Rightarrow> body \<Rightarrow> (string \<times> string) list + ProductSchema" where
  "ProductSchema_validate V b =
     (let n = required (str_validator V) ''type_error.str'' (b ''name'');
          d = optional (str_validator V) ''type_error.str'' (b ''description'');
          p = gt_0 (required (float_validator V) ''type_error.float'' (b ''price''));
          s = with_default True (bool_validator V) ''type_error.bool'' (b ''in_stock'')
      in case (n, d, p, s) of
           (Inr n', Inr d', Inr p', Inr s') \<Rightarrow>
             Inr \<lparr>name = n', description = d', price = p', in_stock = s'\<rparr>
         | _ \<Rightarrow>
             Inl (field_errors ''name'' n @ field_errors ''description'' d @
                  field_errors ''price'' p @ field_errors ''in_stock'' s))"

definition opt_str :: "string option \<Rightarrow> bson" where
  "opt_str v = (case v of None \<Rightarrow> BNull | Some s \<Rightarrow> BStr s)"

definition opt_float :: "pyfloat option \<Rightarrow> bson" where
  "opt_float v = (case v of None \<Rightarrow> BNull | Some f \<Rightarrow> BFloat f)"

definition opt_bool :: "bool option \<Rightarrow> bson" where
  "opt_bool v = (case v of None \<Rightarrow> BNull | Some b \<Rightarrow> BBool b)"

text \<open>\<^verbatim>\<open>product.dict()\<close> of a \<^verbatim>\<open>ProductSchema\<close>: all four fields.\<close>

definition ProductSchema_dict :: "ProductSchema \<Rightarrow> pydict" where
  "ProductSchema_dict p =
     [(''name'', BStr (name p)),
      (''description'', opt_str (description p)),
      (''price'', BFloat (price p)),
      (''in_stock'', BBool (in_stock p))]"

text \<open>
  A \<^verbatim>\<open>ProductUpdateSchema\<close>: four optional fields without a constraint, and the set of
  the fields the request has supplied (\<^verbatim>\<open>__fields_set__\<close>), a supplied null included.
\<close>

record ProductUpdateSchema =
  upd_name :: "string option"
  upd_description :: "string option"
  upd_price :: "pyfloat option"
  upd_in_stock :: "bool option"
  fields_set :: "string set"

definition ProductUpdateSchema_validate ::
  "validators \<Rightarrow> body \<Rightarrow> (string \<times> string) list + ProductUpdateSchema" where
  "ProductUpdateSchema_validate V b =
     (let n = optional (str_validator V) ''type_error.str'' (b ''name'');
          d = optional (str_validator V) ''type_error.str'' (b ''description'');
          p = optional (float_validator V) ''type_error.float'' (b ''price'');
          s = optional (bool_validator V) ''type_error.bool'' (b ''in_stock'')
      in case (n, d, p, s) of
           (Inr n', Inr d', Inr p', Inr s') \<Rightarrow>
             Inr \<lparr>upd_name = n', upd_description = d', upd_price = p', upd_in_stock = s',
                  fields_set =
                    set (filter (\<lambda>k. b k \<noteq> None)
                           [''name'', ''description'', ''price'', ''in_stock''])\<rparr>
         | _ \<Rightarrow>
             Inl (field_errors ''name'' n @ field_errors ''description'' d @
                  field_errors ''price'' p @ field_errors ''in_stock'' s))"

text \<open>\<^verbatim>\<open>product.dict(exclude_unset=True)\<close>: the supplied fields only.\<close>

definition dict_exclude_unset :: "ProductUpdateSchema \<Rightarrow> pydict" where
  "dict_exclude_unset p =
     filter (\<lambda>(k, v). k \<in> fields_set p)
       [(''name'', opt_str (upd_name p)),
        (''description'', opt_str (upd_description p)),
        (''price'', opt_float (upd_price p)),
        (''in_stock'', opt_bool (upd_in_stock p))]"

section \<open>Routes\<close>

text \<open>
  A request body that fails its schema never reaches the handler: the framework answers
  422 with the list of field errors.
\<close>

definition get_products :: "collection \<Rightarrow> (error + pydict list) \<times> collection" where
  "get_products c = retrieve_products c"

definition get_product :: "string \<Rightarrow> collection \<Rightarrow> (error + pydict) \<times> collection" where
  "get_product id' c =
     (case retrieve_product id' c of
        (Inl e, c') \<Rightarrow> (Inl e, c')
      | (Inr None, c') \<Rightarrow> (Inl (HTTPException 404), c')
      | (Inr (Some product), c') \<Rightarrow> (Inr product, c'))"

definition create_product ::
  "validators \<Rightarrow> oid \<Rightarrow> body \<Rightarrow> collection \<Rightarrow> (error + pydict) \<times> collection" where
  "create_product V new_id b c =
     (case ProductSchema_validate V b of
        Inl errs \<Rightarrow> (Inl (RequestValidationError errs), c)
      | Inr product \<Rightarrow> add_product new_id (ProductSchema_dict product) c)"

definition update_existing_product ::
  "validators \<Rightarrow> string \<Rightarrow> body \<Rightarrow> collection \<Rightarrow> (error + bool) \<times> collection" where
  "update_existing_product V id' b c =
     (case ProductUpdateSchema_validate V b of
        Inl errs \<Rightarrow> (Inl (RequestValidationError errs), c)
      | Inr product \<Rightarrow> update_product id' (dict_exclude_unset product) c)"

definition delete_existing_product :: "string \<Rightarrow> collection \<Rightarrow> (error + bool) \<times> collection" where
  "delete_existing_product id' c = delete_product id' c"

section \<open>Example data\<close>

text \<open>The record of the specification's end-to-end example, under a fixed identifier.\<close>

definition widget_id :: oid where
  "widget_id = [1, 35, 69, 103, 137, 171, 205, 239, 1, 35, 69, 103]"

definition widget :: document where
  "widget =
     \<lparr>doc_id = widget_id,
      doc_fields = [(''name'', BStr ''Widget''), (''description'', BNull),
                    (''price'', BFloat (Finite 5)), (''in_stock'', BBool True)]\<rparr>"

text \<open>The three records of the specification's listing example, in the order of creation.\<close>

definition fruit_doc :: "byte \<Rightarrow> string \<Rightarrow> document" where
  "fruit_doc n nm =
     \<lparr>doc_id = [0, 0, 0, 0, 0, 0, 0, 0, 0, 0, 0, n],
      doc_fields = [(''name'', BStr nm), (''description'', BNull),
                    (''price'', BFloat (Finite 1)), (''in_stock'', BBool True)]\<rparr>"

definition fruit :: collection where
  "fruit = [fruit_doc 1 ''banana'', fruit_doc 2 ''apple'', fruit_doc 3 ''cherry'']"

section \<open>The collections the routes produce\<close>

text \<open>
  Every response of \<^verbatim>\<open>product_helper\<close> reads \<^verbatim>\<open>name\<close>, \<^verbatim>\<open>price\<close> and
  \<^verbatim>\<open>in_stock\<close> by subscript, so it needs a document that has them.
\<close>

definition has_product_fields :: "document \<Rightarrow> bool" where
  "has_product_fields d =
     (''name'' \<in> fst ` set (doc_fields d) \<and> ''price'' \<in> fst ` set (doc_fields d) \<and>
      ''in_stock'' \<in> fst ` set (doc_fields d))"

text \<open>
  The collections that requests to the three writing routes produce from the empty
  collection, whatever their outcome. The two reading routes leave the collection as it is.
\<close>

inductive reachable :: "validators \<Rightarrow> collection \<Rightarrow> bool" for V :: validators where
  start: "reachable V []"
| create: "reachable V c \<Longrightarrow> reachable V (snd (create_product V new_id b c))"
| update: "reachable V c \<Longrightarrow> reachable V (snd (update_existing_product V id' b c))"
| delete: "reachable V c \<Longrightarrow> reachable V (snd (delete_existing_product id' c))"

section \<open>Facts about the collection\<close>

lemma find_one_Some: "find_one i c = Some d \<Longrightarrow> d \<in> set c \<and> doc_id d = i"
  by (induction c) (auto simp: find_one_def split: if_splits)

lemma find_one_None_iff: "find_one i c = None \<longleftrightarrow> i \<notin> doc_id ` set c"
  by (induction c) (auto simp: find_one_def)

lemma ids_delete_one:
  "distinct (map doc_id c) \<Longrightarrow> doc_id ` set (delete_one i c) = doc_id ` set c - {i}"
proof (induction c)
  case Nil
  then show ?case by simp
next
  case (Cons d ds)
  show ?case
  proof (cases "doc_id d = i")
    case True
    with Cons.prems show ?thesis by auto
  next
    case False
    with Cons show ?thesis by auto
  qed
qed

lemma find_one_delete_one_same:
  "distinct (map doc_id c) \<Longrightarrow> find_one i (delete_one i c) = None"
  by (simp add: find_one_None_iff ids_delete_one)

lemma find_one_delete_one_other:
  "j \<noteq> i \<Longrightarrow> find_one j (delete_one i c) = find_one j c"
  by (induction c) (auto simp: find_one_def)

lemma set_delete_one: "set (delete_one i c) \<subseteq> set c"
  by (induction c) auto

lemma distinct_delete_one: "distinct (map doc_id c) \<Longrightarrow> distinct (map doc_id (delete_one i c))"
  using set_delete_one by (induction c) fastforce+

lemma ids_update_first:
  "(\<And>d. doc_id (f d) = doc_id d) \<Longrightarrow> map doc_id (update_first i f c) = map doc_id c"
  by (induction c) auto

lemma find_one_update_first_same:
  "(\<And>d. doc_id (f d) = doc_id d) \<Longrightarrow> find_one i c = Some d \<Longrightarrow>
   find_one i (update_first i f c) = Some (f d)"
  by (induction c) (auto simp: find_one_def)

lemma find_one_update_first_other:
  "(\<And>d. doc_id (f d) = doc_id d) \<Longrightarrow> j \<noteq> i \<Longrightarrow>
   find_one j (update_first i f c) = find_one j c"
  by (induction c) (auto simp: find_one_def)

lemma update_first_fields:
  assumes "find_one i c = Some d"
  shows "find_one i (update_first i (\<lambda>d. d\<lparr>doc_fields := set_fields data (doc_fields d)\<rparr>) c) =
           Some (d\<lparr>doc_fields := set_fields data (doc_fields d)\<rparr>)"
    and "j \<noteq> i \<Longrightarrow>
           find_one j (update_first i (\<lambda>d. d\<lparr>doc_fields := set_fields data (doc_fields d)\<rparr>) c) =
           find_one j c"
  using assms by (simp_all add: find_one_update_first_same find_one_update_first_other)

lemma update_first_id:
  "find_one i c = Some d \<Longrightarrow> f d = d \<Longrightarrow> update_first i f c = c"
  by (induction c) (auto simp: find_one_def)

lemma set_update_first: "set (update_first i f c) \<subseteq> set c \<union> f ` set c"
  by (induction c) auto

lemma find_one_append_new:
  "i \<notin> doc_id ` set c \<Longrightarrow> doc_id d = i \<Longrightarrow> find_one i (c @ [d]) = Some d"
  by (induction c) (auto simp: find_one_def)

text \<open>A \<^verbatim>\<open>$set\<close> is a map override: the later of two entries for one key wins.\<close>

lemma map_of_set_fields:
  "map_of (set_fields data fs) = map_of fs ++ map_of (rev data)"
  unfolding set_fields_def
proof (induction data arbitrary: fs)
  case Nil
  then show ?case by simp
next
  case (Cons kv data)
  obtain k v where kv: "kv = (k, v)" by (cases kv)
  show ?case
    by (simp add: kv Cons.IH update_conv' map_add_upd_left fun_eq_iff map_add_def split: option.splits)
qed

lemma map_of_rev_distinct:
  "distinct (map fst xs) \<Longrightarrow> map_of (rev xs) = map_of xs"
  by (rule map_of_inject_set[THEN iffD2]) (simp_all add: rev_map[symmetric])

lemma map_of_set_fields_distinct:
  "distinct (map fst data) \<Longrightarrow> map_of (set_fields data fs) = map_of fs ++ map_of data"
  by (simp add: map_of_set_fields map_of_rev_distinct)

lemma keys_set_fields: "fst ` set (set_fields data fs) = fst ` set fs \<union> fst ` set data"
  unfolding set_fields_def
proof (induction data arbitrary: fs)
  case Nil
  then show ?case by simp
next
  case (Cons kv data)
  obtain k v where kv: "kv = (k, v)" by (cases kv)
  have "fst ` set (fold (\<lambda>(k, v). AList.update k v) data (AList.update k v fs)) =
        fst ` set (AList.update k v fs) \<union> fst ` set data"
    by (rule Cons.IH)
  then show ?case
    by (simp add: kv dom_update Un_ac insert_commute)
qed

section \<open>Facts about identifiers\<close>

lemma ObjectId_sample:
  "ObjectId ''0123456789abcdef01234567'' = Inr [1, 35, 69, 103, 137, 171, 205, 239, 1, 35, 69, 103]"
  by (simp add: ObjectId_def hexval_def isspace_def)

lemma ObjectId_abc: "ObjectId ''abc'' = Inl (InvalidId ''abc'')"
  by (simp add: ObjectId_def)

lemma ObjectId_not_hex:
  "ObjectId ''zzzzzzzzzzzzzzzzzzzzzzzz'' = Inl (InvalidId ''zzzzzzzzzzzzzzzzzzzzzzzz'')"
  by (simp add: ObjectId_def hexval_def isspace_def)

lemma ObjectId_widget: "ObjectId ''0123456789abcdef01234567'' = Inr widget_id"
  by (simp add: ObjectId_sample widget_id_def)

lemma find_one_widget: "find_one widget_id [widget] = Some widget"
  by (simp add: find_one_def widget_def)





lemma ObjectId_str_widget: "ObjectId_str widget_id = ''0123456789abcdef01234567''"
  by (simp add: widget_id_def ObjectId_str_def hex_of_byte_def hexdigit_def)













section \<open>Facts about the schemas\<close>

lemma required_Inr:
  "required validator err v = Inr a \<longleftrightarrow> (\<exists>j. v = Some j \<and> j \<noteq> JNull \<and> validator j = Some a)"
  by (auto simp: required_def split: option.splits json.splits)


lemma optional_null: "optional validator err (Some JNull) = Inr None"
  by (simp add: optional_def)

lemma optional_missing: "optional validator err None = Inr None"
  by (simp add: optional_def)

lemma with_default_missing: "with_default dflt validator err None = Inr dflt"
  by (simp add: with_default_def)

lemma gt_0_Inr: "gt_0 r = Inr v \<longleftrightarrow> r = Inr v \<and> gt0 v"
  by (auto simp: gt_0_def split: sum.splits if_splits)

lemma le0_not_gt0: "le0 f \<Longrightarrow> \<not> gt0 f"
  by (cases f) auto

lemma ProductSchema_validate_Inr:
  "ProductSchema_validate V b = Inr p \<longleftrightarrow>
     required (str_validator V) ''type_error.str'' (b ''name'') = Inr (name p) \<and>
     optional (str_validator V) ''type_error.str'' (b ''description'') = Inr (description p) \<and>
     gt_0 (required (float_validator V) ''type_error.float'' (b ''price'')) = Inr (price p) \<and>
     with_default True (bool_validator V) ''type_error.bool'' (b ''in_stock'') = Inr (in_stock p)"
  by (cases p) (auto simp: ProductSchema_validate_def Let_def split: sum.splits)

lemma ProductSchema_validate_Inl:
  "ProductSchema_validate V b = Inl errs \<Longrightarrow>
     errs =
       field_errors ''name'' (required (str_validator V) ''type_error.str'' (b ''name'')) @
       field_errors ''description'' (optional (str_validator V) ''type_error.str'' (b ''description'')) @
       field_errors ''price'' (gt_0 (required (float_validator V) ''type_error.float'' (b ''price''))) @
       field_errors ''in_stock'' (with_default True (bool_validator V) ''type_error.bool'' (b ''in_stock''))"
  by (auto simp: ProductSchema_validate_def Let_def split: sum.splits)

lemma ProductUpdateSchema_validate_Inr:
  "ProductUpdateSchema_validate V b = Inr p \<longleftrightarrow>
     optional (str_validator V) ''type_error.str'' (b ''name'') = Inr (upd_name p) \<and>
     optional (str_validator V) ''type_error.str'' (b ''description'') = Inr (upd_description p) \<and>
     optional (float_validator V) ''type_error.float'' (b ''price'') = Inr (upd_price p) \<and>
     optional (bool_validator V) ''type_error.bool'' (b ''in_stock'') = Inr (upd_in_stock p) \<and>
     fields_set p =
       set (filter (\<lambda>k. b k \<noteq> None) [''name'', ''description'', ''price'', ''in_stock''])"
proof -
  obtain n d pr s fs where p: "p = \<lparr>upd_name = n, upd_description = d, upd_price = pr,
      upd_in_stock = s, fields_set = fs\<rparr>"
    by (cases p) simp
  show ?thesis
    unfolding ProductUpdateSchema_validate_def Let_def p
    by (cases "optional (str_validator V) ''type_error.str'' (b ''name'')";
        cases "optional (str_validator V) ''type_error.str'' (b ''description'')";
        cases "optional (float_validator V) ''type_error.float'' (b ''price'')";
        cases "optional (bool_validator V) ''type_error.bool'' (b ''in_stock'')")
       (simp_all del: set_filter filter.simps, blast+)
qed

lemma fields_set_validate:
  "ProductUpdateSchema_validate V b = Inr p \<Longrightarrow>
     fields_set p = {k \<in> {''name'', ''description'', ''price'', ''in_stock''}. b k \<noteq> None}"
  unfolding ProductUpdateSchema_validate_Inr by (simp only: set_filter) simp

lemma map_of_dict_exclude_unset:
  "map_of (dict_exclude_unset p) k =
     (if k \<in> fields_set p
      then map_of [(''name'', opt_str (upd_name p)), (''description'', opt_str (upd_description p)),
                   (''price'', opt_float (upd_price p)), (''in_stock'', opt_bool (upd_in_stock p))] k
      else None)"
  by (simp add: dict_exclude_unset_def)

lemma distinct_dict_exclude_unset: "distinct (map fst (dict_exclude_unset p))"
  by (simp add: dict_exclude_unset_def)

lemma keys_dict_exclude_unset:
  "fst ` set (dict_exclude_unset p) =
     fields_set p \<inter> {''name'', ''description'', ''price'', ''in_stock''}"
  by (auto simp: dict_exclude_unset_def)

lemma validate_price_only:
  "ProductUpdateSchema_validate scalar_validators [''price'' \<mapsto> JFloat (Finite (999 / 100))] =
     Inr \<lparr>upd_name = None, upd_description = None, upd_price = Some (Finite (999 / 100)),
          upd_in_stock = None, fields_set = {''price''}\<rparr>"
  by (simp add: ProductUpdateSchema_validate_def scalar_validators_def optional_def)

lemma validate_in_stock_only:
  "ProductUpdateSchema_validate scalar_validators [''in_stock'' \<mapsto> JBool True] =
     Inr \<lparr>upd_name = None, upd_description = None, upd_price = None,
          upd_in_stock = Some True, fields_set = {''in_stock''}\<rparr>"
  by (simp add: ProductUpdateSchema_validate_def scalar_validators_def optional_def)

lemma validate_empty_body:
  "ProductUpdateSchema_validate scalar_validators ([''name'' \<mapsto> JNull](''name'' := None)) =
     Inr \<lparr>upd_name = None, upd_description = None, upd_price = None, upd_in_stock = None,
          fields_set = {}\<rparr>"
  by (simp add: ProductUpdateSchema_validate_def optional_def)



lemma validate_widget:
  "ProductSchema_validate scalar_validators [''name'' \<mapsto> JStr ''Widget'', ''price'' \<mapsto> JFloat (Finite 5)] =
     Inr \<lparr>name = ''Widget'', description = None, price = Finite 5, in_stock = True\<rparr>"
  by (simp add: ProductSchema_validate_def scalar_validators_def required_def optional_def
      with_default_def gt_0_def)

lemma filter_upd_None:
  "k \<in> set L \<Longrightarrow> b k \<noteq> None \<Longrightarrow>
   set (filter (\<lambda>x. b x \<noteq> None) L) = insert k (set (filter (\<lambda>x. (b(k := None)) x \<noteq> None) L))"
  by auto

lemma validate_with_null:
  assumes "k \<in> {''name'', ''description'', ''price'', ''in_stock''}" and "b k = Some JNull"
    and "ProductUpdateSchema_validate V (b(k := None)) = Inr p0"
  shows "ProductUpdateSchema_validate V b = Inr (p0\<lparr>fields_set := insert k (fields_set p0)\<rparr>)"
    and "map_of [(''name'', opt_str (upd_name p0)), (''description'', opt_str (upd_description p0)),
                 (''price'', opt_float (upd_price p0)), (''in_stock'', opt_bool (upd_in_stock p0))] k =
         Some BNull"
proof -
  have k: "k \<in> set [''name'', ''description'', ''price'', ''in_stock'']"
    using assms(1) by simp
  have fs: "set (filter (\<lambda>x. b x \<noteq> None) [''name'', ''description'', ''price'', ''in_stock'']) =
            insert k (set (filter (\<lambda>x. (b(k := None)) x \<noteq> None)
                             [''name'', ''description'', ''price'', ''in_stock'']))"
    using k by (rule filter_upd_None) (simp add: assms(2))
  note p0 = assms(3) [unfolded ProductUpdateSchema_validate_Inr]
  from assms(1) consider "k = ''name''" | "k = ''description''" | "k = ''price''" | "k = ''in_stock''"
    by auto
  then show "ProductUpdateSchema_validate V b = Inr (p0\<lparr>fields_set := insert k (fields_set p0)\<rparr>)"
  proof cases
    case 1
    with p0 assms(2) show ?thesis
      unfolding ProductUpdateSchema_validate_Inr fs
      by (simp add: optional_null optional_missing del: set_filter filter.simps)
  next
    case 2
    with p0 assms(2) show ?thesis
      unfolding ProductUpdateSchema_validate_Inr fs
      by (simp add: optional_null optional_missing del: set_filter filter.simps)
  next
    case 3
    with p0 assms(2) show ?thesis
      unfolding ProductUpdateSchema_validate_Inr fs
      by (simp add: optional_null optional_missing del: set_filter filter.simps)
  next
    case 4
    with p0 assms(2) show ?thesis
      unfolding ProductUpdateSchema_validate_Inr fs
      by (simp add: optional_null optional_missing del: set_filter filter.simps)
  qed
  from assms(1) consider "k = ''name''" | "k = ''description''" | "k = ''price''" | "k = ''in_stock''"
    by auto
  then show "map_of [(''name'', opt_str (upd_name p0)), (''description'', opt_str (upd_description p0)),
                 (''price'', opt_float (upd_price p0)), (''in_stock'', opt_bool (upd_in_stock p0))] k =
         Some BNull"
  proof cases
    case 1
    with p0 show ?thesis by (simp add: optional_missing opt_str_def)
  next
    case 2
    with p0 show ?thesis by (simp add: optional_missing opt_str_def)
  next
    case 3
    with p0 show ?thesis by (simp add: optional_missing opt_float_def)
  next
    case 4
    with p0 show ?thesis by (simp add: optional_missing opt_bool_def)
  qed
qed

text \<open>The create shape does enforce \<^verbatim>\<open>price > 0\<close>: an accepted price is positive.\<close>

lemma create_price_positive:
  "ProductSchema_validate V b = Inr p \<Longrightarrow> gt0 (price p)"
  by (simp add: ProductSchema_validate_Inr gt_0_Inr)

lemma create_rejects_nonpositive_price:
  assumes "b ''price'' = Some j" and "float_validator V j = Some f" and "le0 f"
  shows "\<exists>errs. ProductSchema_validate V b = Inl errs \<and> ''price'' \<in> fst ` set errs"
proof -
  have "\<exists>e. gt_0 (required (float_validator V) ''type_error.float'' (b ''price'')) = Inl e"
    using assms by (cases j) (simp_all add: gt_0_def required_def le0_not_gt0)
  then obtain e where e: "gt_0 (required (float_validator V) ''type_error.float'' (b ''price'')) = Inl e"
    by blast
  then obtain errs where errs: "ProductSchema_validate V b = Inl errs"
    by (cases "ProductSchema_validate V b") (auto simp: ProductSchema_validate_Inr)
  from ProductSchema_validate_Inl [OF errs] e have "''price'' \<in> fst ` set errs"
    by (simp add: field_errors_def)
  with errs show ?thesis by blast
qed

section \<open>Facts about the repository operations\<close>

lemma update_product_found:
  assumes "ObjectId id' = Inr i" and "find_one i c = Some d" and "data \<noteq> []"
  shows "update_product id' data c =
           (Inr True, update_first i (\<lambda>d. d\<lparr>doc_fields := set_fields data (doc_fields d)\<rparr>) c)"
  using assms by (cases data) (simp_all add: update_product_def update_one_def truthy_def)

lemma update_existing_product_merge:
  assumes "ObjectId id' = Inr i" and "find_one i c = Some d"
    and "ProductUpdateSchema_validate V b = Inr p" and "dict_exclude_unset p \<noteq> []"
  shows "update_existing_product V id' b c =
           (Inr True,
            update_first i (\<lambda>d. d\<lparr>doc_fields := set_fields (dict_exclude_unset p) (doc_fields d)\<rparr>) c)"
    and "find_one i
           (update_first i (\<lambda>d. d\<lparr>doc_fields := set_fields (dict_exclude_unset p) (doc_fields d)\<rparr>) c) =
         Some (d\<lparr>doc_fields := set_fields (dict_exclude_unset p) (doc_fields d)\<rparr>)"
    and "map_of (set_fields (dict_exclude_unset p) (doc_fields d)) =
           map_of (doc_fields d) ++ map_of (dict_exclude_unset p)"
proof -
  show "update_existing_product V id' b c =
           (Inr True,
            update_first i (\<lambda>d. d\<lparr>doc_fields := set_fields (dict_exclude_unset p) (doc_fields d)\<rparr>) c)"
    using assms by (simp add: update_existing_product_def update_product_found)
  show "find_one i
           (update_first i (\<lambda>d. d\<lparr>doc_fields := set_fields (dict_exclude_unset p) (doc_fields d)\<rparr>) c) =
         Some (d\<lparr>doc_fields := set_fields (dict_exclude_unset p) (doc_fields d)\<rparr>)"
    using assms(2) by (rule update_first_fields(1))
  show "map_of (set_fields (dict_exclude_unset p) (doc_fields d)) =
           map_of (doc_fields d) ++ map_of (dict_exclude_unset p)"
    by (simp add: map_of_set_fields_distinct distinct_dict_exclude_unset)
qed

lemma product_helper_dict:
  "product_helper \<lparr>doc_id = i, doc_fields = ProductSchema_dict p\<rparr> =
     Inr [(''id'', BStr (ObjectId_str i)), (''name'', BStr (name p)),
          (''description'', opt_str (description p)), (''price'', BFloat (price p)),
          (''in_stock'', BBool (in_stock p))]"
  by (simp add: product_helper_def ProductSchema_dict_def getitem_def get_or_none_def)

lemma add_product_new:
  assumes "new_id \<notin> doc_id ` set c"
  shows "add_product new_id (ProductSchema_dict p) c =
           (Inr [(''id'', BStr (ObjectId_str new_id)), (''name'', BStr (name p)),
                 (''description'', opt_str (description p)), (''price'', BFloat (price p)),
                 (''in_stock'', BBool (in_stock p))],
            c @ [\<lparr>doc_id = new_id, doc_fields = ProductSchema_dict p\<rparr>])"
  using assms
  by (simp add: add_product_def insert_one_def find_one_append_new product_helper_dict)

lemma getitem_present: "k \<in> fst ` set d \<Longrightarrow> \<exists>v. getitem d k = Inr v \<and> get_or_none d k = v"
  by (cases "map_of d k") (auto simp: getitem_def get_or_none_def map_of_eq_None_iff)

lemma product_helper_complete:
  assumes "has_product_fields d"
  shows "\<exists>r. product_helper d = Inr r \<and> get_or_none r ''name'' = get_or_none (doc_fields d) ''name''"
proof -
  from assms obtain n p s where
      "getitem (doc_fields d) ''name'' = Inr n" "get_or_none (doc_fields d) ''name'' = n"
      "getitem (doc_fields d) ''price'' = Inr p" "getitem (doc_fields d) ''in_stock'' = Inr s"
    unfolding has_product_fields_def using getitem_present by metis
  then show ?thesis
    by (simp add: product_helper_def get_or_none_def)
qed

lemma append_products_complete:
  assumes "\<forall>d \<in> set ds. has_product_fields d"
  shows "\<exists>ps. append_products acc ds = Inr (acc @ ps) \<and>
              map Inr ps = map product_helper ds \<and>
              map (\<lambda>r. get_or_none r ''name'') ps = map (\<lambda>d. get_or_none (doc_fields d) ''name'') ds"
  using assms
proof (induction ds arbitrary: acc)
  case Nil
  then show ?case by simp
next
  case (Cons d ds)
  then obtain r where r: "product_helper d = Inr r"
      "get_or_none r ''name'' = get_or_none (doc_fields d) ''name''"
    using product_helper_complete [of d] by auto
  from Cons obtain ps where ps: "append_products (acc @ [r]) ds = Inr ((acc @ [r]) @ ps)"
      "map Inr ps = map product_helper ds"
      "map (\<lambda>r. get_or_none r ''name'') ps = map (\<lambda>d. get_or_none (doc_fields d) ''name'') ds"
    by (metis list.set_intros(2))
  show ?case
    by (rule exI [of _ "r # ps"]) (simp add: r ps)
qed

section \<open>Facts about the order of names\<close>

lemma float_le_total: "float_le a b \<or> float_le b a"
  by (cases a; cases b) (auto simp: float_le_def)

lemma float_le_trans: "float_le a b \<Longrightarrow> float_le b c \<Longrightarrow> float_le a c"
  by (cases a; cases b; cases c) (auto simp: float_le_def)

lemma str_le_total: "str_le a b \<or> str_le b a"
proof (induction a b rule: str_le.induct)
  case (3 x xs y ys)
  show ?case
  proof (cases "x = y")
    case True
    with 3 show ?thesis by simp
  next
    case False
    then show ?thesis
      by (cases "of_char x :: nat" "of_char y :: nat" rule: linorder_cases) auto
  qed
qed simp_all

lemma str_le_trans: "str_le a b \<Longrightarrow> str_le b c \<Longrightarrow> str_le a c"
proof (induction a arbitrary: b c)
  case Nil
  then show ?case by simp
next
  case (Cons x xs)
  then obtain y ys where b: "b = y # ys" by (cases b) auto
  with Cons.prems obtain z zs where c: "c = z # zs" by (cases c) auto
  from Cons.prems Cons.IH [of ys zs] show ?case
    unfolding b c by (auto split: if_splits)
qed

lemma bson_le_total: "bson_le a b \<or> bson_le b a"
  using float_le_total str_le_total
  by (cases a; cases b) (auto simp: bson_le_def)

lemma bson_le_trans: "bson_le a b \<Longrightarrow> bson_le b c \<Longrightarrow> bson_le a c"
  by (cases a; cases b; cases c)
     (auto simp: bson_le_def intro: float_le_trans str_le_trans)

lemma set_insort_by: "set (insort_by le x xs) = insert x (set xs)"
  by (induction xs) auto

lemma mset_insort_by: "mset (insort_by le x xs) = add_mset x (mset xs)"
  by (induction xs) auto

lemma sorted_insort_by:
  assumes total: "\<And>a b. le a b \<or> le b a" and trans: "\<And>a b c. le a b \<Longrightarrow> le b c \<Longrightarrow> le a c"
  shows "sorted_wrt le xs \<Longrightarrow> sorted_wrt le (insort_by le x xs)"
proof (induction xs)
  case Nil
  then show ?case by simp
next
  case (Cons y ys)
  show ?case
  proof (cases "le x y")
    case True
    with Cons.prems trans show ?thesis by auto
  next
    case False
    with total have "le y x" by blast
    with False Cons show ?thesis by (auto simp: set_insort_by)
  qed
qed

lemma mset_sort_by: "mset (sort_by le xs) = mset xs"
  by (induction xs) (simp_all add: sort_by_def mset_insort_by)

lemma sorted_sort_by:
  assumes "\<And>a b. le a b \<or> le b a" and "\<And>a b c. le a b \<Longrightarrow> le b c \<Longrightarrow> le a c"
  shows "sorted_wrt le (sort_by le xs)"
proof (induction xs)
  case Nil
  then show ?case by (simp add: sort_by_def)
next
  case (Cons x xs)
  from sorted_insort_by [of le, OF assms Cons.IH]
  show ?case by (simp add: sort_by_def)
qed

lemma mset_find_sort_name: "mset (find_sort_name c) = mset c"
  by (simp add: find_sort_name_def mset_sort_by)

lemma sorted_find_sort_name:
  "sorted_wrt (\<lambda>a b. name_le (doc_fields a) (doc_fields b)) (find_sort_name c)"
  unfolding find_sort_name_def
  by (rule sorted_sort_by) (auto simp: name_le_def bson_le_total intro: bson_le_trans)

section \<open>Invariants of the collection\<close>

lemma has_product_fields_set_fields:
  "has_product_fields d \<Longrightarrow> has_product_fields (d\<lparr>doc_fields := set_fields data (doc_fields d)\<rparr>)"
  by (simp add: has_product_fields_def keys_set_fields)

lemma has_product_fields_dict:
  "has_product_fields \<lparr>doc_id = i, doc_fields = ProductSchema_dict p\<rparr>"
  by (simp add: has_product_fields_def ProductSchema_dict_def)

lemma snd_create_product:
  "snd (create_product V new_id b c) = c \<or>
   (\<exists>p. new_id \<notin> doc_id ` set c \<and>
        snd (create_product V new_id b c) = c @ [\<lparr>doc_id = new_id, doc_fields = ProductSchema_dict p\<rparr>])"
proof (cases "ProductSchema_validate V b")
  case (Inl errs)
  then show ?thesis by (simp add: create_product_def)
next
  case (Inr p)
  show ?thesis
  proof (cases "new_id \<in> doc_id ` set c")
    case True
    with Inr show ?thesis
      by (simp add: create_product_def add_product_def insert_one_def)
  next
    case False
    with Inr have "snd (create_product V new_id b c) =
        c @ [\<lparr>doc_id = new_id, doc_fields = ProductSchema_dict p\<rparr>]"
      by (simp add: create_product_def add_product_new)
    with False show ?thesis by blast
  qed
qed

text \<open>A create that returns a record has used an identifier that no stored record has.\<close>

lemma create_product_returns_new_id:
  assumes "create_product V new_id b c = (Inr r, c')"
  shows "new_id \<notin> doc_id ` set c \<and> map_of r ''id'' = Some (BStr (ObjectId_str new_id))"
proof (cases "ProductSchema_validate V b")
  case (Inl errs)
  with assms show ?thesis by (simp add: create_product_def)
next
  case (Inr p)
  show ?thesis
  proof (cases "new_id \<in> doc_id ` set c")
    case True
    with Inr assms show ?thesis
      by (simp add: create_product_def add_product_def insert_one_def)
  next
    case False
    with Inr assms show ?thesis
      by (auto simp: create_product_def add_product_new)
  qed
qed

lemma snd_update_product:
  "snd (update_product id' data c) = c \<or>
   (\<exists>i. snd (update_product id' data c) =
          update_first i (\<lambda>d. d\<lparr>doc_fields := set_fields data (doc_fields d)\<rparr>) c)"
  by (auto simp: update_product_def update_one_def truthy_def split: sum.splits option.splits)

lemma snd_update_existing_product:
  "snd (update_existing_product V id' b c) = c \<or>
   (\<exists>i data. snd (update_existing_product V id' b c) =
          update_first i (\<lambda>d. d\<lparr>doc_fields := set_fields data (doc_fields d)\<rparr>) c)"
proof (cases "ProductUpdateSchema_validate V b")
  case (Inl errs)
  then show ?thesis by (simp add: update_existing_product_def)
next
  case (Inr p)
  with snd_update_product [of id' "dict_exclude_unset p" c] show ?thesis
    by (auto simp: update_existing_product_def)
qed

lemma snd_delete_existing_product:
  "snd (delete_existing_product id' c) = c \<or>
   (\<exists>i. snd (delete_existing_product id' c) = delete_one i c)"
  by (auto simp: delete_existing_product_def delete_product_def split: sum.splits option.splits)

text \<open>
  Every collection the routes can produce holds documents with \<^verbatim>\<open>name\<close>,
  \<^verbatim>\<open>price\<close> and \<^verbatim>\<open>in_stock\<close>, under identifiers that are unique.
\<close>

lemma reachable_invariant:
  "reachable V c \<Longrightarrow> (\<forall>d \<in> set c. has_product_fields d) \<and> distinct (map doc_id c)"
proof (induction rule: reachable.induct)
  case start
  then show ?case by simp
next
  case (create c new_id b)
  with snd_create_product [of V new_id b c] show ?case
    by (auto simp: has_product_fields_dict)
next
  case (update c id' b)
  from snd_update_existing_product [of V id' b c] show ?case
  proof
    assume "snd (update_existing_product V id' b c) = c"
    with update.IH show ?thesis by simp
  next
    assume "\<exists>i data. snd (update_existing_product V id' b c) =
          update_first i (\<lambda>d. d\<lparr>doc_fields := set_fields data (doc_fields d)\<rparr>) c"
    then obtain i data where s: "snd (update_existing_product V id' b c) =
          update_first i (\<lambda>d. d\<lparr>doc_fields := set_fields data (doc_fields d)\<rparr>) c"
      by blast
    have "\<forall>d \<in> set (update_first i (\<lambda>d. d\<lparr>doc_fields := set_fields data (doc_fields d)\<rparr>) c).
            has_product_fields d"
      using update.IH set_update_first [of i "\<lambda>d. d\<lparr>doc_fields := set_fields data (doc_fields d)\<rparr>" c]
      by (auto simp: has_product_fields_set_fields)
    moreover have "distinct (map doc_id
        (update_first i (\<lambda>d. d\<lparr>doc_fields := set_fields data (doc_fields d)\<rparr>) c))"
      using update.IH by (simp add: ids_update_first)
    ultimately show ?thesis by (simp add: s)
  qed
next
  case (delete c id')
  from snd_delete_existing_product [of id' c] show ?case
  proof
    assume "snd (delete_existing_product id' c) = c"
    with delete.IH show ?thesis by simp
  next
    assume "\<exists>i. snd (delete_existing_product id' c) = delete_one i c"
    then obtain i where s: "snd (delete_existing_product id' c) = delete_one i c"
      by blast
    with delete.IH set_delete_one [of i c] show ?thesis
      by (auto simp: distinct_delete_one)
  qed
qed

section \<open>Identifiers that do not parse\<close>

text \<open>
  \<^verbatim>\<open>"abc"\<close> is no ObjectId. None of get, delete and update (with a field to set) answers
  404 or False on it: the \<^verbatim>\<open>InvalidId\<close> of the parser leaves each of them as an
  exception.
\<close>

theorem get_product_bad_id_raises:
  "get_product ''abc'' [] = (Inl (InvalidId ''abc''), []) \<and>
   delete_existing_product ''abc'' [] = (Inl (InvalidId ''abc''), []) \<and>
   update_product ''abc'' [(''price'', BFloat (Finite 1))] [] = (Inl (InvalidId ''abc''), [])"
  by (simp add: get_product_def retrieve_product_def delete_existing_product_def
      delete_product_def update_product_def ObjectId_abc)

text \<open>
  C1, as the code has it. For an id string that does not parse as an ObjectId, get and
  delete raise the parser's \<^verbatim>\<open>InvalidId\<close> and leave the collection as it was, and so
  does update when the field set is not empty; update with an empty field set returns
  False. For an id string that parses and resolves to no record, get answers 404 and
  delete and update return False.
\<close>

theorem unparseable_id_raises:
  "(ObjectId id' = Inl e \<longrightarrow>
      get_product id' c = (Inl e, c) \<and>
      delete_product id' c = (Inl e, c) \<and>
      (data \<noteq> [] \<longrightarrow> update_product id' data c = (Inl e, c)) \<and>
      update_product id' [] c = (Inr False, c)) \<and>
   (ObjectId id' = Inr i \<and> find_one i c = None \<longrightarrow>
      get_product id' c = (Inl (HTTPException 404), c) \<and>
      delete_product id' c = (Inr False, c) \<and>
      update_product id' data c = (Inr False, c))"
  by (cases data)
     (simp_all add: get_product_def retrieve_product_def delete_product_def update_product_def)

theorem unparseable_id_raises_witness:
  "get_product ''abc'' [] = (Inl (InvalidId ''abc''), []) \<and>
   delete_product ''abc'' [] = (Inl (InvalidId ''abc''), []) \<and>
   update_product ''abc'' [(''in_stock'', BBool False)] [] = (Inl (InvalidId ''abc''), []) \<and>
   update_product ''abc'' [] [] = (Inr False, []) \<and>
   get_product ''0123456789abcdef01234567'' [] = (Inl (HTTPException 404), []) \<and>
   delete_product ''0123456789abcdef01234567'' [] = (Inr False, []) \<and>
   update_product ''0123456789abcdef01234567'' [(''in_stock'', BBool False)] [] = (Inr False, [])"
proof -
  note a = unparseable_id_raises [where id' = "''abc''" and c = "[]"
      and data = "[(''in_stock'', BBool False)]", THEN conjunct1, THEN mp, OF ObjectId_abc]
  have nf: "ObjectId ''0123456789abcdef01234567'' = Inr widget_id \<and> find_one widget_id [] = None"
    by (simp add: ObjectId_widget find_one_def)
  note b = unparseable_id_raises [where id' = "''0123456789abcdef01234567''" and c = "[]"
      and data = "[(''in_stock'', BBool False)]", THEN conjunct2, THEN mp, OF nf]
  from a b show ?thesis by simp
qed

section \<open>The price of an updated record\<close>

text \<open>
  C2 at the input \<^verbatim>\<open>PUT /products/0123456789abcdef01234567 {"price": -1.0}\<close> on a
  collection that holds that record with price 5: the update shape accepts the payload,
  the route answers True and the stored price is \<open>-1\<close>.
\<close>

theorem update_accepts_negative_price:
  "update_existing_product scalar_validators ''0123456789abcdef01234567''
     [''price'' \<mapsto> JFloat (Finite (- 1))]
     [\<lparr>doc_id = [1, 35, 69, 103, 137, 171, 205, 239, 1, 35, 69, 103],
       doc_fields = [(''name'', BStr ''Widget''), (''description'', BNull),
                     (''price'', BFloat (Finite 5)), (''in_stock'', BBool True)]\<rparr>] =
   (Inr True,
    [\<lparr>doc_id = [1, 35, 69, 103, 137, 171, 205, 239, 1, 35, 69, 103],
      doc_fields = [(''name'', BStr ''Widget''), (''description'', BNull),
                    (''price'', BFloat (Finite (- 1))), (''in_stock'', BBool True)]\<rparr>])"
  by (simp add: update_existing_product_def ProductUpdateSchema_validate_def scalar_validators_def
      optional_def dict_exclude_unset_def opt_float_def opt_str_def opt_bool_def update_product_def
      ObjectId_sample find_one_def update_one_def set_fields_def truthy_def)

section \<open>The name of a created record\<close>

text \<open>The create shape accepts the empty string as a name.\<close>

theorem create_accepts_empty_name:
  "ProductSchema_validate scalar_validators [''name'' \<mapsto> JStr '''', ''price'' \<mapsto> JFloat (Finite 1)] =
     Inr \<lparr>name = '''', description = None, price = Finite 1, in_stock = True\<rparr>"
  by (simp add: ProductSchema_validate_def scalar_validators_def required_def optional_def
      with_default_def gt_0_def)

text \<open>
  C3, as the code has it. A create payload whose name is missing or null is rejected with
  an error on \<^verbatim>\<open>name\<close>; an accepted payload has a name that is present, not null and
  accepted by the text validator; and a name that the text validator accepts, whatever
  its length, is never among the reported errors.
\<close>

theorem create_requires_name:
  "(b ''name'' = None \<or> b ''name'' = Some JNull \<longrightarrow>
      (\<exists>errs. ProductSchema_validate V b = Inl errs \<and> ''name'' \<in> fst ` set errs)) \<and>
   (ProductSchema_validate V b = Inr p \<longrightarrow>
      (\<exists>j. b ''name'' = Some j \<and> j \<noteq> JNull \<and> str_validator V j = Some (name p))) \<and>
   (b ''name'' = Some j \<and> j \<noteq> JNull \<and> str_validator V j = Some s \<and>
    ProductSchema_validate V b = Inl errs \<longrightarrow> ''name'' \<notin> fst ` set errs)"
proof (intro conjI impI)
  assume a: "b ''name'' = None \<or> b ''name'' = Some JNull"
  then obtain e where e: "required (str_validator V) ''type_error.str'' (b ''name'') = Inl e"
    by (auto simp: required_def)
  then obtain errs where errs: "ProductSchema_validate V b = Inl errs"
    by (cases "ProductSchema_validate V b") (auto simp: ProductSchema_validate_Inr)
  from ProductSchema_validate_Inl [OF errs] e have "''name'' \<in> fst ` set errs"
    by (simp add: field_errors_def)
  with errs show "\<exists>errs. ProductSchema_validate V b = Inl errs \<and> ''name'' \<in> fst ` set errs"
    by blast
next
  assume "ProductSchema_validate V b = Inr p"
  then show "\<exists>j. b ''name'' = Some j \<and> j \<noteq> JNull \<and> str_validator V j = Some (name p)"
    by (simp add: ProductSchema_validate_Inr required_Inr)
next
  assume a: "b ''name'' = Some j \<and> j \<noteq> JNull \<and> str_validator V j = Some s \<and>
    ProductSchema_validate V b = Inl errs"
  then have "required (str_validator V) ''type_error.str'' (b ''name'') = Inr s"
    by (simp add: required_Inr)
  with ProductSchema_validate_Inl [of V b errs] a show "''name'' \<notin> fst ` set errs"
    by (auto simp: field_errors_def split: sum.splits)
qed

theorem create_requires_name_witness:
  "(\<exists>errs. ProductSchema_validate scalar_validators [''price'' \<mapsto> JFloat (Finite 5)] = Inl errs \<and>
           ''name'' \<in> fst ` set errs) \<and>
   (\<exists>j. [''name'' \<mapsto> JStr ''Widget'', ''price'' \<mapsto> JFloat (Finite 5)] ''name'' = Some j \<and>
        j \<noteq> JNull \<and> str_validator scalar_validators j = Some ''Widget'') \<and>
   ''name'' \<notin> fst ` set [(''price'', ''value_error.number.not_gt'')]"
proof -
  have h1: "[''price'' \<mapsto> JFloat (Finite 5)] ''name'' = None \<or>
            [''price'' \<mapsto> JFloat (Finite 5)] ''name'' = Some JNull"
    by simp
  note a = create_requires_name [where V = scalar_validators and b = "[''price'' \<mapsto> JFloat (Finite 5)]", THEN conjunct1, THEN mp, OF h1]
  have h2: "ProductSchema_validate scalar_validators
              [''name'' \<mapsto> JStr ''Widget'', ''price'' \<mapsto> JFloat (Finite 5)] =
            Inr \<lparr>name = ''Widget'', description = None, price = Finite 5, in_stock = True\<rparr>"
    by (simp add: ProductSchema_validate_def scalar_validators_def required_def optional_def
        with_default_def gt_0_def)
  note b = create_requires_name [THEN conjunct2, THEN conjunct1, THEN mp, OF h2]
  have h3: "[''name'' \<mapsto> JStr '''', ''price'' \<mapsto> JFloat (Finite 0)] ''name'' = Some (JStr '''') \<and>
            JStr '''' \<noteq> JNull \<and> str_validator scalar_validators (JStr '''') = Some '''' \<and>
            ProductSchema_validate scalar_validators
              [''name'' \<mapsto> JStr '''', ''price'' \<mapsto> JFloat (Finite 0)] =
            Inl [(''price'', ''value_error.number.not_gt'')]"
    by (simp add: ProductSchema_validate_def scalar_validators_def required_def optional_def
        with_default_def gt_0_def field_errors_def)
  note c = create_requires_name [THEN conjunct2, THEN conjunct2, THEN mp, OF h3]
  from a b c show ?thesis by simp
qed

section \<open>Update with an empty field set\<close>

text \<open>
  C4. For every id string, also one that is no ObjectId, and every collection:
  \<^verbatim>\<open>update_product\<close> with an empty field set returns False and gives back the
  collection it received, so no document is written and an existing record with that id
  is found unchanged afterwards.
\<close>

theorem update_product_empty_noop:
  "update_product id' [] c = (Inr False, c)"
  by (simp add: update_product_def)

section \<open>Partial update\<close>

text \<open>
  C5. For an existing record and a validated update payload with at least one supplied
  field, the route answers True and the record afterwards has, for every supplied field,
  the supplied value, and for every other key the value it had; the other records are
  found as before. The dictionary passed to \<^verbatim>\<open>update_product\<close> has exactly the keys
  the request body supplied, a key supplied as null included.
\<close>

theorem update_overwrites_supplied_fields_only:
  assumes "ObjectId id' = Inr i" and "find_one i c = Some d"
    and "ProductUpdateSchema_validate V b = Inr p" and "dict_exclude_unset p \<noteq> []"
  shows "\<exists>c' d'. update_existing_product V id' b c = (Inr True, c') \<and>
           find_one i c' = Some d' \<and> doc_id d' = doc_id d \<and>
           (\<forall>k v. (k, v) \<in> set (dict_exclude_unset p) \<longrightarrow> map_of (doc_fields d') k = Some v) \<and>
           (\<forall>k. k \<notin> fst ` set (dict_exclude_unset p) \<longrightarrow>
                map_of (doc_fields d') k = map_of (doc_fields d) k) \<and>
           (\<forall>j. j \<noteq> i \<longrightarrow> find_one j c' = find_one j c) \<and>
           fst ` set (dict_exclude_unset p) =
             {k \<in> {''name'', ''description'', ''price'', ''in_stock''}. b k \<noteq> None}"
proof -
  let ?data = "dict_exclude_unset p"
  let ?d' = "d\<lparr>doc_fields := set_fields ?data (doc_fields d)\<rparr>"
  let ?c' = "update_first i (\<lambda>d. d\<lparr>doc_fields := set_fields ?data (doc_fields d)\<rparr>) c"
  have run: "update_existing_product V id' b c = (Inr True, ?c')"
    using assms by (simp add: update_existing_product_def update_product_found)
  have found: "find_one i ?c' = Some ?d'"
    using assms(2) by (rule update_first_fields(1))
  have m: "map_of (set_fields ?data (doc_fields d)) = map_of (doc_fields d) ++ map_of ?data"
    by (simp add: map_of_set_fields_distinct distinct_dict_exclude_unset)
  have supplied: "\<forall>k v. (k, v) \<in> set ?data \<longrightarrow> map_of (doc_fields ?d') k = Some v"
  proof (intro allI impI)
    fix k v
    assume "(k, v) \<in> set ?data"
    then have "map_of ?data k = Some v"
      by (simp add: distinct_dict_exclude_unset)
    then show "map_of (doc_fields ?d') k = Some v"
      by (simp add: m map_add_def)
  qed
  have others: "\<forall>k. k \<notin> fst ` set ?data \<longrightarrow> map_of (doc_fields ?d') k = map_of (doc_fields d) k"
  proof (intro allI impI)
    fix k
    assume "k \<notin> fst ` set ?data"
    then have "map_of ?data k = None"
      by (simp add: map_of_eq_None_iff)
    then show "map_of (doc_fields ?d') k = map_of (doc_fields d) k"
      by (simp add: m map_add_def)
  qed
  have rest: "\<forall>j. j \<noteq> i \<longrightarrow> find_one j ?c' = find_one j c"
    using assms(2) by (simp add: update_first_fields(2))
  have keys: "fst ` set ?data = {k \<in> {''name'', ''description'', ''price'', ''in_stock''}. b k \<noteq> None}"
    using fields_set_validate [OF assms(3)] by (auto simp: keys_dict_exclude_unset)
  from run found supplied others rest keys show ?thesis
    by (intro exI [of _ ?c'] exI [of _ ?d']) simp
qed

theorem update_overwrites_supplied_fields_only_witness:
  "\<exists>c' d'. update_existing_product scalar_validators ''0123456789abcdef01234567''
            [''price'' \<mapsto> JFloat (Finite (999 / 100))] [widget] = (Inr True, c') \<and>
          find_one widget_id c' = Some d' \<and>
          map_of (doc_fields d') ''price'' = Some (BFloat (Finite (999 / 100))) \<and>
          map_of (doc_fields d') ''name'' = Some (BStr ''Widget'') \<and>
          map_of (doc_fields d') ''description'' = Some BNull \<and>
          map_of (doc_fields d') ''in_stock'' = Some (BBool True)"
proof -
  let ?p = "\<lparr>upd_name = None, upd_description = None, upd_price = Some (Finite (999 / 100)),
          upd_in_stock = None, fields_set = {''price''}\<rparr>"
  have data: "dict_exclude_unset ?p = [(''price'', BFloat (Finite (999 / 100)))]"
    by (simp add: dict_exclude_unset_def opt_float_def)
  then have ne: "dict_exclude_unset ?p \<noteq> []" by simp
  from update_overwrites_supplied_fields_only
         [OF ObjectId_widget find_one_widget validate_price_only ne]
  obtain c' d' where all:
      "update_existing_product scalar_validators ''0123456789abcdef01234567''
              [''price'' \<mapsto> JFloat (Finite (999 / 100))] [widget] = (Inr True, c') \<and>
       find_one widget_id c' = Some d' \<and> doc_id d' = doc_id widget \<and>
       (\<forall>k v. (k, v) \<in> set (dict_exclude_unset ?p) \<longrightarrow> map_of (doc_fields d') k = Some v) \<and>
       (\<forall>k. k \<notin> fst ` set (dict_exclude_unset ?p) \<longrightarrow>
                   map_of (doc_fields d') k = map_of (doc_fields widget) k) \<and>
       (\<forall>j. j \<noteq> widget_id \<longrightarrow> find_one j c' = find_one j [widget]) \<and>
       fst ` set (dict_exclude_unset ?p) =
         {k \<in> {''name'', ''description'', ''price'', ''in_stock''}.
            [''price'' \<mapsto> JFloat (Finite (999 / 100))] k \<noteq> None}"
    by (elim exE) (rule that)
  note run = all [THEN conjunct1]
  note found = all [THEN conjunct2, THEN conjunct1]
  note supplied = all [THEN conjunct2, THEN conjunct2, THEN conjunct2, THEN conjunct1,
      unfolded data]
  note others = all [THEN conjunct2, THEN conjunct2, THEN conjunct2, THEN conjunct2, THEN conjunct1,
      unfolded data]
  have p: "map_of (doc_fields d') ''price'' = Some (BFloat (Finite (999 / 100)))"
    using supplied [rule_format, of "''price''" "BFloat (Finite (999 / 100))"] by simp
  have n: "map_of (doc_fields d') ''name'' = Some (BStr ''Widget'')"
    using others [rule_format, of "''name''"] by (simp add: widget_def)
  have d: "map_of (doc_fields d') ''description'' = Some BNull"
    using others [rule_format, of "''description''"] by (simp add: widget_def)
  have s: "map_of (doc_fields d') ''in_stock'' = Some (BBool True)"
    using others [rule_format, of "''in_stock''"] by (simp add: widget_def)
  show ?thesis
    by (intro exI [of _ c'] exI [of _ d'] conjI run found p n d s)
qed

section \<open>Delete\<close>

text \<open>
  A string of 24 characters that are no hexadecimal digits: delete raises, it does not
  return False.
\<close>

theorem delete_bad_id_raises:
  "delete_product ''zzzzzzzzzzzzzzzzzzzzzzzz'' [] = (Inl (InvalidId ''zzzzzzzzzzzzzzzzzzzzzzzz''), [])"
  by (simp add: delete_product_def ObjectId_not_hex)

text \<open>
  C6, as the code has it. For an id string that parses as an ObjectId, on a collection
  whose identifiers are unique: if a record with that id exists, delete returns True, the
  record is gone, the other records are found as before, a following get finds nothing
  (404 at the route) and a following delete returns False; if no record with that id
  exists, delete returns False and the collection is unchanged.
\<close>

theorem delete_product_by_parsed_id:
  assumes "ObjectId id' = Inr i" and "distinct (map doc_id c)"
  shows "(i \<in> doc_id ` set c \<longrightarrow>
            (\<exists>c'. delete_product id' c = (Inr True, c') \<and>
                  i \<notin> doc_id ` set c' \<and>
                  retrieve_product id' c' = (Inr None, c') \<and>
                  get_product id' c' = (Inl (HTTPException 404), c') \<and>
                  delete_product id' c' = (Inr False, c') \<and>
                  (\<forall>j. j \<noteq> i \<longrightarrow> find_one j c' = find_one j c))) \<and>
         (i \<notin> doc_id ` set c \<longrightarrow> delete_product id' c = (Inr False, c))"
proof (intro conjI impI)
  assume "i \<in> doc_id ` set c"
  then obtain d where d: "find_one i c = Some d"
    using find_one_None_iff [of i c] by (cases "find_one i c") auto
  have gone: "find_one i (delete_one i c) = None"
    using assms(2) by (rule find_one_delete_one_same)
  have "delete_product id' c = (Inr True, delete_one i c)"
    using assms(1) d by (simp add: delete_product_def)
  moreover have "i \<notin> doc_id ` set (delete_one i c)"
    using gone by (simp add: find_one_None_iff)
  moreover have "retrieve_product id' (delete_one i c) = (Inr None, delete_one i c)"
    using assms(1) gone by (simp add: retrieve_product_def)
  moreover have "get_product id' (delete_one i c) = (Inl (HTTPException 404), delete_one i c)"
    using assms(1) gone by (simp add: get_product_def retrieve_product_def)
  moreover have "delete_product id' (delete_one i c) = (Inr False, delete_one i c)"
    using assms(1) gone by (simp add: delete_product_def)
  moreover have "\<forall>j. j \<noteq> i \<longrightarrow> find_one j (delete_one i c) = find_one j c"
    by (simp add: find_one_delete_one_other)
  ultimately show "\<exists>c'. delete_product id' c = (Inr True, c') \<and>
                  i \<notin> doc_id ` set c' \<and>
                  retrieve_product id' c' = (Inr None, c') \<and>
                  get_product id' c' = (Inl (HTTPException 404), c') \<and>
                  delete_product id' c' = (Inr False, c') \<and>
                  (\<forall>j. j \<noteq> i \<longrightarrow> find_one j c' = find_one j c)"
    by blast
next
  assume "i \<notin> doc_id ` set c"
  then have "find_one i c = None"
    by (simp add: find_one_None_iff)
  then show "delete_product id' c = (Inr False, c)"
    using assms(1) by (simp add: delete_product_def)
qed

theorem delete_product_by_parsed_id_witness:
  "(\<exists>c'. delete_product ''0123456789abcdef01234567'' [widget] = (Inr True, c') \<and>
         widget_id \<notin> doc_id ` set c' \<and>
         get_product ''0123456789abcdef01234567'' c' = (Inl (HTTPException 404), c') \<and>
         delete_product ''0123456789abcdef01234567'' c' = (Inr False, c')) \<and>
   delete_product ''0123456789abcdef01234567'' [] = (Inr False, [])"
proof -
  have d1: "distinct (map doc_id [widget])" by simp
  have in1: "widget_id \<in> doc_id ` set [widget]" by (simp add: widget_def)
  from delete_product_by_parsed_id [OF ObjectId_widget d1, THEN conjunct1, THEN mp, OF in1]
  have a: "\<exists>c'. delete_product ''0123456789abcdef01234567'' [widget] = (Inr True, c') \<and>
         widget_id \<notin> doc_id ` set c' \<and>
         get_product ''0123456789abcdef01234567'' c' = (Inl (HTTPException 404), c') \<and>
         delete_product ''0123456789abcdef01234567'' c' = (Inr False, c')"
    by blast
  have d0: "distinct (map doc_id ([] :: collection))" by simp
  have in0: "widget_id \<notin> doc_id ` set ([] :: collection)" by simp
  note b = delete_product_by_parsed_id [OF ObjectId_widget d0, THEN conjunct2, THEN mp, OF in0]
  from a b show ?thesis by blast
qed

section \<open>Create\<close>



section \<open>List\<close>

text \<open>The listing example of the specification: banana, apple, cherry come back as apple, banana, cherry.\<close>

lemma retrieve_products_fruit:
  "fst (retrieve_products fruit) =
     Inr [[(''id'', BStr ''000000000000000000000002''), (''name'', BStr ''apple''),
           (''description'', BNull), (''price'', BFloat (Finite 1)), (''in_stock'', BBool True)],
          [(''id'', BStr ''000000000000000000000001''), (''name'', BStr ''banana''),
           (''description'', BNull), (''price'', BFloat (Finite 1)), (''in_stock'', BBool True)],
          [(''id'', BStr ''000000000000000000000003''), (''name'', BStr ''cherry''),
           (''description'', BNull), (''price'', BFloat (Finite 1)), (''in_stock'', BBool True)]]"
  by (simp add: retrieve_products_def find_sort_name_def sort_by_def fruit_def fruit_doc_def
      name_le_def bson_le_def get_or_none_def product_helper_def getitem_def
      ObjectId_str_def hex_of_byte_def hexdigit_def)

text \<open>
  C8. For every collection whose documents have \<^verbatim>\<open>name\<close>, \<^verbatim>\<open>price\<close> and
  \<^verbatim>\<open>in_stock\<close> (every collection the routes produce is one, by
  \<open>reachable_invariant\<close>), list returns, without an error and leaving the collection as
  it is, the mapped form of every stored document, each once, ascending by name; for the
  empty collection it returns the empty list.
\<close>

theorem retrieve_products_sorted_by_name:
  assumes "\<forall>d \<in> set c. has_product_fields d"
  shows "\<exists>products. retrieve_products c = (Inr products, c) \<and>
           map Inr products = map product_helper (find_sort_name c) \<and>
           mset (find_sort_name c) = mset c \<and>
           sorted_wrt name_le products \<and>
           retrieve_products [] = (Inr [], [])"
proof -
  have "\<forall>d \<in> set (find_sort_name c). has_product_fields d"
    using assms mset_find_sort_name [of c] by (metis set_mset_mset)
  from append_products_complete [OF this, of "[]"]
  obtain ps where ps: "append_products [] (find_sort_name c) = Inr ps"
      "map Inr ps = map product_helper (find_sort_name c)"
      "map (\<lambda>r. get_or_none r ''name'') ps =
       map (\<lambda>d. get_or_none (doc_fields d) ''name'') (find_sort_name c)"
    by auto
  have "sorted_wrt bson_le (map (\<lambda>d. get_or_none (doc_fields d) ''name'') (find_sort_name c))"
    using sorted_find_sort_name [of c] by (simp add: sorted_wrt_map name_le_def)
  then have "sorted_wrt bson_le (map (\<lambda>r. get_or_none r ''name'') ps)"
    by (simp add: ps(3))
  moreover have "name_le = (\<lambda>a b. bson_le (get_or_none a ''name'') (get_or_none b ''name''))"
    by (simp add: fun_eq_iff name_le_def)
  ultimately have sorted: "sorted_wrt name_le ps"
    by (simp add: sorted_wrt_map)
  have empty: "retrieve_products [] = (Inr [], [])"
    by (simp add: retrieve_products_def find_sort_name_def sort_by_def)
  have run: "retrieve_products c = (Inr ps, c)"
    by (simp add: retrieve_products_def ps(1))
  show ?thesis
    by (intro exI [of _ ps] conjI run ps(2) mset_find_sort_name sorted empty)
qed

theorem retrieve_products_sorted_by_name_witness:
  "\<exists>products. retrieve_products fruit = (Inr products, fruit) \<and>
     map Inr products = map product_helper (find_sort_name fruit) \<and>
     mset (find_sort_name fruit) = mset fruit \<and>
     sorted_wrt name_le products \<and>
     retrieve_products [] = (Inr [], [])"
proof -
  have h: "\<forall>d \<in> set fruit. has_product_fields d"
    by (simp add: fruit_def fruit_doc_def has_product_fields_def)
  show ?thesis
    by (rule retrieve_products_sorted_by_name [OF h])
qed

section \<open>The success signal of update\<close>

text \<open>
  C9. For an existing record and a validated update payload with at least one supplied
  field, the route answers True; when every supplied value equals the stored one, the
  collection is unchanged, the driver reports no modified document, and the answer is
  still True.
\<close>

theorem update_success_without_change:
  assumes "ObjectId id' = Inr i" and "find_one i c = Some d"
    and "ProductUpdateSchema_validate V b = Inr p" and "dict_exclude_unset p \<noteq> []"
  shows "fst (update_existing_product V id' b c) = Inr True \<and>
         (set_fields (dict_exclude_unset p) (doc_fields d) = doc_fields d \<longrightarrow>
            update_existing_product V id' b c = (Inr True, c) \<and>
            modified_count (fst (update_one i (dict_exclude_unset p) c)) = 0)"
proof (intro conjI impI)
  show "fst (update_existing_product V id' b c) = Inr True"
    by (simp add: update_existing_product_merge(1) [OF assms])
next
  assume same: "set_fields (dict_exclude_unset p) (doc_fields d) = doc_fields d"
  have "update_first i (\<lambda>d. d\<lparr>doc_fields := set_fields (dict_exclude_unset p) (doc_fields d)\<rparr>) c = c"
    using assms(2) by (rule update_first_id) (simp add: same)
  then show "update_existing_product V id' b c = (Inr True, c)"
    by (simp add: update_existing_product_merge(1) [OF assms])
  show "modified_count (fst (update_one i (dict_exclude_unset p) c)) = 0"
    using assms(2) same by (simp add: update_one_def)
qed

theorem update_success_without_change_witness:
  "update_existing_product scalar_validators ''0123456789abcdef01234567''
     [''in_stock'' \<mapsto> JBool True] [widget] = (Inr True, [widget]) \<and>
   modified_count (fst (update_one widget_id [(''in_stock'', BBool True)] [widget])) = 0"
proof -
  let ?p = "\<lparr>upd_name = None, upd_description = None, upd_price = None,
          upd_in_stock = Some True, fields_set = {''in_stock''}\<rparr>"
  have data: "dict_exclude_unset ?p = [(''in_stock'', BBool True)]"
    by (simp add: dict_exclude_unset_def opt_bool_def)
  then have ne: "dict_exclude_unset ?p \<noteq> []" by simp
  have same: "set_fields (dict_exclude_unset ?p) (doc_fields widget) = doc_fields widget"
    by (simp add: data set_fields_def widget_def)
  from update_success_without_change
         [OF ObjectId_widget find_one_widget validate_in_stock_only ne, THEN conjunct2, THEN mp, OF same]
  show ?thesis by (simp add: data)
qed

section \<open>Null in an update\<close>

text \<open>
  C10. For an existing record and an update payload that supplies one of the four fields
  as null, the rest of the payload being valid: the payload passes update validation, the
  dictionary passed to \<^verbatim>\<open>update_product\<close> holds that field with the value null, the
  route answers True and the stored field is null afterwards, for \<^verbatim>\<open>name\<close>,
  \<^verbatim>\<open>price\<close> and \<^verbatim>\<open>in_stock\<close> as for \<^verbatim>\<open>description\<close>.
\<close>

theorem update_null_overwrites_field:
  assumes "k \<in> {''name'', ''description'', ''price'', ''in_stock''}" and "b k = Some JNull"
    and "ProductUpdateSchema_validate V (b(k := None)) = Inr p0"
    and "ObjectId id' = Inr i" and "find_one i c = Some d"
  shows "\<exists>p c' d'. ProductUpdateSchema_validate V b = Inr p \<and>
           (k, BNull) \<in> set (dict_exclude_unset p) \<and>
           update_existing_product V id' b c = (Inr True, c') \<and>
           find_one i c' = Some d' \<and>
           map_of (doc_fields d') k = Some BNull"
proof -
  let ?p = "p0\<lparr>fields_set := insert k (fields_set p0)\<rparr>"
  let ?d' = "d\<lparr>doc_fields := set_fields (dict_exclude_unset ?p) (doc_fields d)\<rparr>"
  let ?c' = "update_first i (\<lambda>d. d\<lparr>doc_fields := set_fields (dict_exclude_unset ?p) (doc_fields d)\<rparr>) c"
  have v: "ProductUpdateSchema_validate V b = Inr ?p"
    using assms(1-3) by (rule validate_with_null(1))
  have look: "map_of (dict_exclude_unset ?p) k = Some BNull"
    using validate_with_null(2) [OF assms(1-3)] by (simp add: map_of_dict_exclude_unset)
  then have mem: "(k, BNull) \<in> set (dict_exclude_unset ?p)"
    by (rule map_of_SomeD)
  then have ne: "dict_exclude_unset ?p \<noteq> []"
    by auto
  note merge = update_existing_product_merge [OF assms(4) assms(5) v ne]
  have stored: "map_of (doc_fields ?d') k = Some BNull"
    using look by (simp add: merge(3) map_add_def)
  show ?thesis
    by (intro exI [of _ ?p] exI [of _ ?c'] exI [of _ ?d'] conjI v mem merge(1) merge(2) stored)
qed

theorem update_null_overwrites_field_witness:
  "\<exists>p c' d'. ProductUpdateSchema_validate scalar_validators [''name'' \<mapsto> JNull] = Inr p \<and>
      (''name'', BNull) \<in> set (dict_exclude_unset p) \<and>
      update_existing_product scalar_validators ''0123456789abcdef01234567'' [''name'' \<mapsto> JNull]
        [widget] = (Inr True, c') \<and>
      find_one widget_id c' = Some d' \<and>
      map_of (doc_fields d') ''name'' = Some BNull"
proof -
  have k: "''name'' \<in> {''name'', ''description'', ''price'', ''in_stock''}" by simp
  have null: "[''name'' \<mapsto> JNull] ''name'' = Some JNull" by simp
  show ?thesis
    by (rule update_null_overwrites_field
          [OF k null validate_empty_body ObjectId_widget find_one_widget])
qed

end
